theory Spec2Isabelle
  imports Main
begin

section \<open>Subscriber side: product cache, poll path and push path\<close>

text \<open>
  Source: \<^verbatim>\<open>bot/src/modules/real-time/WebSocketManager.ts\<close> (classes
  \<^verbatim>\<open>WebSocketManager\<close> and \<^verbatim>\<open>ProductManager\<close>) and
  \<^verbatim>\<open>shared/schemas/product.ts\<close>.

  A \<^verbatim>\<open>Date\<close> is modelled by its time value, an integer number of milliseconds.
  Of \<^verbatim>\<open>IProduct\<close> the record keeps the identifier, the fields that the change
  stream calls critical and the version field \<^verbatim>\<open>lastUpdated\<close>.
\<close>

record product =
  productId :: string
  name :: string
  price :: int
  stock :: int
  isActive :: bool
  lastUpdated :: int

text \<open>
  The hub sends \<^verbatim>\<open>data: change.fullDocument || change.documentKey\<close>: a full
  snapshot, or only the store's document key.
\<close>

datatype payload = FullDocument product | DocumentKey string

text \<open>The value type of \<^verbatim>\<open>productCache\<close>: \<^verbatim>\<open>{ product, lastUpdated }\<close>.\<close>

record cache_entry =
  entry_product :: product
  entry_lastUpdated :: int

text \<open>
  The state owned by \<^verbatim>\<open>ProductManager\<close>, together with the trace of calls of
  \<^verbatim>\<open>channelManager.updateProductEmbed\<close> (the presentation side effect), in call
  order. Console output is not modelled.
\<close>

record sync_agent =
  lastPollTime :: int
  productCache :: "string \<rightharpoonup> cache_entry"
  embedUpdates :: "payload list"

definition initial_agent :: sync_agent where
  "initial_agent = \<lparr>lastPollTime = 0, productCache = Map.empty, embedUpdates = []\<rparr>"

text \<open>
  The test of \<^verbatim>\<open>processProductUpdates\<close>:
  \<^verbatim>\<open>!cached || productLastUpdated > cached.lastUpdated\<close>.
\<close>

definition isNewOrUpdated :: "sync_agent \<Rightarrow> product \<Rightarrow> bool" where
  "isNewOrUpdated s p =
     (case productCache s (productId p) of
        None \<Rightarrow> True
      | Some cached \<Rightarrow> lastUpdated p > entry_lastUpdated cached)"

text \<open>
  The body of the \<^verbatim>\<open>for\<close> loop of \<^verbatim>\<open>processProductUpdates\<close>: the embed is
  updated first, then the cache entry is written.
\<close>

definition processProduct :: "sync_agent \<Rightarrow> product \<Rightarrow> sync_agent" where
  "processProduct s p =
     (if isNewOrUpdated s p
      then s\<lparr>productCache := (productCache s)(productId p \<mapsto>
                 \<lparr>entry_product = p, entry_lastUpdated = lastUpdated p\<rparr>),
             embedUpdates := embedUpdates s @ [FullDocument p]\<rparr>
      else s)"

fun processProductUpdates :: "sync_agent \<Rightarrow> product list \<Rightarrow> sync_agent" where
  "processProductUpdates s [] = s"
| "processProductUpdates s (p # ps) = processProductUpdates (processProduct s p) ps"

text \<open>
  The outcome of the \<^verbatim>\<open>fetch\<close> of \<^verbatim>\<open>pollForUpdates\<close>: the request throws,
  the response is not ok, the body has \<^verbatim>\<open>success: false\<close>, or it carries the
  product list.
\<close>

datatype poll_response = FetchFailed | HttpError | ApiError | ApiSuccess "product list"

definition pollForUpdates :: "sync_agent \<Rightarrow> int \<Rightarrow> poll_response \<Rightarrow> sync_agent" where
  "pollForUpdates s now response =
     (if now - lastPollTime s < 5000 then s
      else
        (let s1 = s\<lparr>lastPollTime := now\<rparr> in
         case response of
           ApiSuccess products \<Rightarrow> processProductUpdates s1 products
         | _ \<Rightarrow> s1))"

text \<open>
  \<^verbatim>\<open>WebSocketManager.handleProductUpdate\<close>, the push path: \<^verbatim>\<open>insert\<close> and
  \<^verbatim>\<open>update\<close> call \<^verbatim>\<open>updateProductEmbed\<close>; \<^verbatim>\<open>delete\<close> and every other
  operation only write to the console. \<^verbatim>\<open>updateProductEmbed\<close> catches its own
  errors, so the \<^verbatim>\<open>catch\<close> of the handler is never entered.
\<close>

definition handleProductUpdate :: "sync_agent \<Rightarrow> payload \<Rightarrow> string \<Rightarrow> sync_agent" where
  "handleProductUpdate s productData operation =
     (if operation = ''insert'' \<or> operation = ''update''
      then s\<lparr>embedUpdates := embedUpdates s @ [productData]\<rparr>
      else s)"

text \<open>
  One delivery to the agent: a pushed \<^verbatim>\<open>PRODUCT_UPDATE\<close> message, or one timer
  tick of the poll with the clock value and the outcome of the request.
\<close>

datatype delivery = Push payload string | Poll int poll_response

fun deliver :: "sync_agent \<Rightarrow> delivery \<Rightarrow> sync_agent" where
  "deliver s (Push productData operation) = handleProductUpdate s productData operation"
| "deliver s (Poll now response) = pollForUpdates s now response"

definition run :: "sync_agent \<Rightarrow> delivery list \<Rightarrow> sync_agent" where
  "run s ds = foldl deliver s ds"


definition is_push :: "delivery \<Rightarrow> bool" where
  "is_push d = (case d of Push _ _ \<Rightarrow> True | Poll _ _ \<Rightarrow> False)"

text \<open>
  The version order on caches: every entry of \<open>c\<close> is still present in \<open>c'\<close>, with a
  version that is at least as high.
\<close>

definition cache_le :: "(string \<rightharpoonup> cache_entry) \<Rightarrow> (string \<rightharpoonup> cache_entry) \<Rightarrow> bool" where
  "cache_le c c' =
     (\<forall>k e. c k = Some e \<longrightarrow>
        (\<exists>e'. c' k = Some e' \<and> entry_lastUpdated e \<le> entry_lastUpdated e'))"

text \<open>A product \<^verbatim>\<open>P1\<close> for the examples, at a given version and stock.\<close>

definition P1_at :: "int \<Rightarrow> int \<Rightarrow> product" where
  "P1_at version units =
     \<lparr>productId = ''P1'', name = ''Key'', price = 100, stock = units, isActive = True,
      lastUpdated = version\<rparr>"

section \<open>Subscriber side: the connection manager\<close>

text \<open>
  Source: class \<^verbatim>\<open>WebSocketManager\<close> of
  \<^verbatim>\<open>bot/src/modules/real-time/WebSocketManager.ts\<close>. The socket \<^verbatim>\<open>this.ws\<close> is
  modelled by its \<^verbatim>\<open>readyState\<close> (\<open>None\<close> is \<^verbatim>\<open>null\<close>); an interval handle by
  whether the interval runs. \<open>transmitted\<close> lists the messages handed to
  \<^verbatim>\<open>ws.send\<close>, \<open>scheduledReconnects\<close> the delays of the
  \<^verbatim>\<open>setTimeout(() => this.connect(), delay)\<close> calls, both in call order.
\<close>

datatype ready_state = CONNECTING | OPEN | CLOSING | CLOSED

datatype client_message = SUBSCRIBE_PRODUCTS "string option" | PING

record connection_manager =
  ws :: "ready_state option"
  reconnectAttempts :: nat
  isConnected :: bool
  heartbeatInterval :: bool
  lastHeartbeat :: int
  fallbackPollingInterval :: bool
  guildId :: "string option"
  transmitted :: "client_message list"
  scheduledReconnects :: "nat list"

definition maxReconnectAttempts :: nat where
  "maxReconnectAttempts = 5"

definition reconnectDelay :: nat where
  "reconnectDelay = 5000"

definition initial_manager :: connection_manager where
  "initial_manager =
     \<lparr>ws = None, reconnectAttempts = 0, isConnected = False, heartbeatInterval = False,
      lastHeartbeat = 0, fallbackPollingInterval = False, guildId = None,
      transmitted = [], scheduledReconnects = []\<rparr>"

definition send :: "connection_manager \<Rightarrow> client_message \<Rightarrow> connection_manager" where
  "send s message =
     (if isConnected s \<and> (case ws s of None \<Rightarrow> False | Some state \<Rightarrow> state = OPEN)
      then s\<lparr>transmitted := transmitted s @ [message]\<rparr>
      else s)"

definition startHeartbeat :: "connection_manager \<Rightarrow> int \<Rightarrow> connection_manager" where
  "startHeartbeat s now = s\<lparr>lastHeartbeat := now, heartbeatInterval := True\<rparr>"

definition stopHeartbeat :: "connection_manager \<Rightarrow> connection_manager" where
  "stopHeartbeat s = (if heartbeatInterval s then s\<lparr>heartbeatInterval := False\<rparr> else s)"

definition startFallbackPolling :: "connection_manager \<Rightarrow> connection_manager" where
  "startFallbackPolling s =
     (if fallbackPollingInterval s then s else s\<lparr>fallbackPollingInterval := True\<rparr>)"

definition stopFallbackPolling :: "connection_manager \<Rightarrow> connection_manager" where
  "stopFallbackPolling s =
     (if fallbackPollingInterval s then s\<lparr>fallbackPollingInterval := False\<rparr> else s)"

text \<open>\<^verbatim>\<open>connect\<close> creates a new socket and registers the four handlers on it.\<close>

definition connect :: "connection_manager \<Rightarrow> connection_manager" where
  "connect s = s\<lparr>ws := Some CONNECTING\<rparr>"

text \<open>The \<^verbatim>\<open>open\<close> handler; \<open>now\<close> is the clock read by \<^verbatim>\<open>startHeartbeat\<close>.\<close>

definition onOpen :: "connection_manager \<Rightarrow> int \<Rightarrow> connection_manager" where
  "onOpen s now =
     send (stopFallbackPolling (startHeartbeat (s\<lparr>isConnected := True, reconnectAttempts := 0\<rparr>) now))
       (SUBSCRIBE_PRODUCTS (guildId s))"

text \<open>\<^verbatim>\<open>handleDisconnection\<close>, called by the \<^verbatim>\<open>close\<close> and the \<^verbatim>\<open>error\<close> handler.\<close>

definition handleDisconnection :: "connection_manager \<Rightarrow> connection_manager" where
  "handleDisconnection s =
     (let s1 = stopHeartbeat (s\<lparr>isConnected := False\<rparr>) in
      if reconnectAttempts s1 < maxReconnectAttempts
      then
        (let s2 = s1\<lparr>reconnectAttempts := reconnectAttempts s1 + 1\<rparr>;
             delay = reconnectDelay * reconnectAttempts s2;
             s3 = s2\<lparr>scheduledReconnects := scheduledReconnects s2 @ [delay]\<rparr>
         in if reconnectAttempts s3 = 1 then startFallbackPolling s3 else s3)
      else startFallbackPolling s1)"

text \<open>The public \<^verbatim>\<open>disconnect\<close>.\<close>

definition disconnect :: "connection_manager \<Rightarrow> connection_manager" where
  "disconnect s = (stopFallbackPolling (stopHeartbeat s))\<lparr>ws := None, isConnected := False\<rparr>"

text \<open>
  What can happen to a manager: a call of \<^verbatim>\<open>connect\<close> (by the host or by a timer set
  in \<^verbatim>\<open>handleDisconnection\<close>), the socket library changing the \<^verbatim>\<open>readyState\<close> of
  the current socket, the \<^verbatim>\<open>open\<close> event, a \<^verbatim>\<open>close\<close> or \<^verbatim>\<open>error\<close> event,
  and a call of \<^verbatim>\<open>disconnect\<close>.
\<close>

datatype event = Connect | SocketState ready_state | Open int | Disconnection | Stop

fun handle_event :: "connection_manager \<Rightarrow> event \<Rightarrow> connection_manager" where
  "handle_event s Connect = connect s"
| "handle_event s (SocketState state) = (case ws s of None \<Rightarrow> s | Some _ \<Rightarrow> s\<lparr>ws := Some state\<rparr>)"
| "handle_event s (Open now) = onOpen s now"
| "handle_event s Disconnection = handleDisconnection s"
| "handle_event s Stop = disconnect s"

definition run_events :: "connection_manager \<Rightarrow> event list \<Rightarrow> connection_manager" where
  "run_events s es = foldl handle_event s es"

text \<open>\<open>k\<close> consecutive calls of \<^verbatim>\<open>handleDisconnection\<close>, with no \<^verbatim>\<open>open\<close> between them.\<close>

definition failures :: "nat \<Rightarrow> connection_manager \<Rightarrow> connection_manager" where
  "failures k s = (handleDisconnection ^^ k) s"

text \<open>
  Two state predicates: polling is off while connected (and then the counter is zero), and
  polling is on only with a positive counter; polling is on exactly with a positive counter.
\<close>

definition dormant_when_connected :: "connection_manager \<Rightarrow> bool" where
  "dormant_when_connected s =
     ((isConnected s \<longrightarrow> \<not> fallbackPollingInterval s \<and> reconnectAttempts s = 0)
      \<and> (fallbackPollingInterval s \<longrightarrow> 0 < reconnectAttempts s))"

definition polls_while_retrying :: "connection_manager \<Rightarrow> bool" where
  "polls_while_retrying s = (fallbackPollingInterval s = (0 < reconnectAttempts s))"

text \<open>
  A connection attempt that fails: the socket emits \<^verbatim>\<open>error\<close> and then
  \<^verbatim>\<open>close\<close>, and each of the two handlers registered by \<^verbatim>\<open>connect\<close> calls
  \<^verbatim>\<open>handleDisconnection\<close>.
\<close>

definition failedAttempt :: "connection_manager \<Rightarrow> connection_manager" where
  "failedAttempt s = run_events s [Disconnection, Disconnection]"

section \<open>Hub side: broadcast\<close>

text \<open>
  Source: \<^verbatim>\<open>dashboard/lib/websocket-server.ts\<close>. A registered connection
  (\<^verbatim>\<open>CustomWebSocket\<close>) carries its identity, the fields the hub reads, and the
  messages that \<^verbatim>\<open>send\<close> delivered. \<open>sendFails\<close> says that the transport of the
  connection is broken, so that a \<^verbatim>\<open>send\<close> on it fails.
  \<^verbatim>\<open>Set<CustomWebSocket>\<close> iterates in insertion order and holds every connection
  once: the set is a list of connections with distinct identities.
\<close>

datatype client_type = Dashboard | Bot

datatype server_message =
    CONNECTION_ESTABLISHED
  | PRODUCT_UPDATE string payload
  | PRODUCT_UPDATE_REQUIRED string string
  | PONG

record client =
  client_id :: nat
  readyState :: ready_state
  clientType :: client_type
  isAlive :: bool
  sendFails :: bool
  received :: "(server_message \<times> int) list"

text \<open>
  \<^verbatim>\<open>client.send(messageStr)\<close>, as the socket library behaves. On a socket that is
  still \<^verbatim>\<open>CONNECTING\<close> the call throws (\<open>None\<close>); on any other socket that is
  not \<^verbatim>\<open>OPEN\<close> nothing is delivered. On an \<^verbatim>\<open>OPEN\<close> socket the call does not
  throw: the message is delivered, or, when the send fails, nothing is delivered and the
  library emits \<^verbatim>\<open>close\<close> on that connection (after \<^verbatim>\<open>error\<close>). The result is
  the connection and the identities on which events are emitted.
\<close>

definition client_send :: "client \<Rightarrow> server_message \<times> int \<Rightarrow> (client \<times> nat list) option" where
  "client_send c m =
     (if readyState c = CONNECTING then None
      else if readyState c \<noteq> OPEN then Some (c, [])
      else if sendFails c then Some (c, [client_id c])
      else Some (c\<lparr>received := received c @ [m]\<rparr>, []))"

text \<open>
  \<^verbatim>\<open>this.clients.forEach(client => { if (...) client.send(messageStr) })\<close>. The result
  is the connection set after the loop, the identities of the connections on which the
  loop's sends made the library emit \<^verbatim>\<open>close\<close>, and whether an exception left the
  loop: there is no \<^verbatim>\<open>try\<close> in the callback, so a throwing \<^verbatim>\<open>send\<close> ends the
  iteration.
\<close>

record loop_result =
  connections :: "client list"
  closing :: "nat list"
  thrown :: bool

fun forEach_send ::
  "(client \<Rightarrow> bool) \<Rightarrow> server_message \<times> int \<Rightarrow> client list \<Rightarrow> loop_result" where
  "forEach_send selected m [] = \<lparr>connections = [], closing = [], thrown = False\<rparr>"
| "forEach_send selected m (c # cs) =
     (if selected c
      then
        (case client_send c m of
           None \<Rightarrow> \<lparr>connections = c # cs, closing = [], thrown = True\<rparr>
         | Some (c', emitted) \<Rightarrow>
             (let rest = forEach_send selected m cs in
              \<lparr>connections = c' # connections rest, closing = emitted @ closing rest,
               thrown = thrown rest\<rparr>))
      else
        (let rest = forEach_send selected m cs in
         \<lparr>connections = c # connections rest, closing = closing rest, thrown = thrown rest\<rparr>))"

definition broadcast :: "client list \<Rightarrow> int \<Rightarrow> server_message \<Rightarrow> loop_result" where
  "broadcast clients now message =
     forEach_send (\<lambda>client. readyState client = OPEN) (message, now) clients"

definition broadcastToType ::
  "client list \<Rightarrow> client_type \<Rightarrow> int \<Rightarrow> server_message \<Rightarrow> loop_result" where
  "broadcastToType clients type now message =
     forEach_send (\<lambda>client. readyState client = OPEN \<and> clientType client = type)
       (message, now) clients"

text \<open>The \<^verbatim>\<open>close\<close> and \<^verbatim>\<open>error\<close> handlers of a connection: \<^verbatim>\<open>this.clients.delete(ws)\<close>.\<close>

definition deleteClient :: "client list \<Rightarrow> nat \<Rightarrow> client list" where
  "deleteClient clients i = filter (\<lambda>client. client_id client \<noteq> i) clients"

text \<open>The hub handles the emitted \<^verbatim>\<open>close\<close> events, one handler call for each.\<close>

definition handleClose :: "client list \<Rightarrow> nat list \<Rightarrow> client list" where
  "handleClose clients ids = foldl deleteClient clients ids"

text \<open>What the loop does to one connection: a selected connection with a working transport
  receives the message.\<close>

definition accept_message :: "(client \<Rightarrow> bool) \<Rightarrow> server_message \<times> int \<Rightarrow> client \<Rightarrow> client" where
  "accept_message selected m c =
     (if selected c \<and> \<not> sendFails c then c\<lparr>received := received c @ [m]\<rparr> else c)"

text \<open>A connection for the examples.\<close>

definition conn :: "nat \<Rightarrow> ready_state \<Rightarrow> bool \<Rightarrow> client" where
  "conn i state fails =
     \<lparr>client_id = i, readyState = state, clientType = Bot, isAlive = True,
      sendFails = fails, received = []\<rparr>"

section \<open>Store side: the product change stream\<close>

text \<open>
  Source: \<^verbatim>\<open>shared/schemas/change-streams.ts\<close>. A change notification carries its
  \<^verbatim>\<open>operationType\<close>, the value found at the path
  \<^verbatim>\<open>updateDescription.updatedFields\<close> (\<open>None\<close> when the path is absent), the
  looked-up \<^verbatim>\<open>fullDocument\<close> and the \<^verbatim>\<open>documentKey\<close>.
\<close>

datatype bson = BString string | BInt int | BBool bool | BDoc "(string \<times> bson) list"
  | BArray "bson list"

record change =
  operationType :: string
  updatedFields :: "bson option"
  fullDocument :: "product option"
  documentKey :: string

text \<open>
  The query operator \<^verbatim>\<open>$in\<close>: the value equals one of the listed values, or it is
  an array and one of its elements does.
\<close>

definition match_in :: "bson \<Rightarrow> bson list \<Rightarrow> bool" where
  "match_in v listed =
     (v \<in> set listed \<or> (case v of BArray elems \<Rightarrow> \<exists>e \<in> set elems. e \<in> set listed | _ \<Rightarrow> False))"

definition presentationFields :: "bson list" where
  "presentationFields =
     [BString ''stock'', BString ''price'', BString ''isActive'', BString ''lastUpdated'']"

text \<open>The \<^verbatim>\<open>$match\<close> stage of \<^verbatim>\<open>productChangeStream\<close>, a \<^verbatim>\<open>$or\<close> of four clauses.\<close>

definition productMatch :: "change \<Rightarrow> bool" where
  "productMatch ch =
     (operationType ch = ''insert''
      \<or> operationType ch = ''update''
      \<or> operationType ch = ''delete''
      \<or> (case updatedFields ch of None \<Rightarrow> False | Some v \<Rightarrow> match_in v presentationFields))"

text \<open>
  The \<^verbatim>\<open>change\<close> handler makes two calls on the hub; the stream passes to it the
  notifications that match. In the second call the product is named by
  \<^verbatim>\<open>change.fullDocument?.productId || change.documentKey._id\<close>: the document key
  stands in when there is no document or its \<^verbatim>\<open>productId\<close> is empty.
\<close>

datatype hub_call = Broadcast server_message | BroadcastToType client_type server_message

definition onProductChange :: "change \<Rightarrow> hub_call list" where
  "onProductChange ch =
     [Broadcast (PRODUCT_UPDATE (operationType ch)
        (case fullDocument ch of Some doc \<Rightarrow> FullDocument doc
         | None \<Rightarrow> DocumentKey (documentKey ch))),
      BroadcastToType Bot (PRODUCT_UPDATE_REQUIRED
        (case fullDocument ch of
           Some doc \<Rightarrow> if productId doc \<noteq> [] then productId doc else documentKey ch
         | None \<Rightarrow> documentKey ch)
        (operationType ch))]"

definition productChangeStream :: "change \<Rightarrow> hub_call list" where
  "productChangeStream ch = (if productMatch ch then onProductChange ch else [])"


text \<open>An update notification that touches only the audit field \<^verbatim>\<open>createdBy\<close>.\<close>

definition bookkeeping_update :: change where
  "bookkeeping_update =
     \<lparr>operationType = ''update'',
      updatedFields = Some (BDoc [(''createdBy'', BString ''admin'')]),
      fullDocument = Some (P1_at 1000 5),
      documentKey = ''k1''\<rparr>"

section \<open>Properties of the cache\<close>

lemma cache_le_refl: "cache_le c c"
  by (simp add: cache_le_def)

lemma cache_le_trans: "cache_le a b \<Longrightarrow> cache_le b c \<Longrightarrow> cache_le a c"
  unfolding cache_le_def by (meson order_trans)

lemma processProduct_cache_le: "cache_le (productCache s) (productCache (processProduct s p))"
  by (auto simp: cache_le_def processProduct_def isNewOrUpdated_def split: option.splits)

lemma processProductUpdates_cache_le:
  "cache_le (productCache s) (productCache (processProductUpdates s ps))"
proof (induction ps arbitrary: s)
  case Nil
  show ?case by (simp add: cache_le_refl)
next
  case (Cons p ps)
  show ?case
    using cache_le_trans [OF processProduct_cache_le Cons.IH] by simp
qed

lemma pollForUpdates_cache_le:
  "cache_le (productCache s) (productCache (pollForUpdates s now r))"
proof (cases r)
  case (ApiSuccess ps)
  have "cache_le (productCache (s\<lparr>lastPollTime := now\<rparr>))
          (productCache (processProductUpdates (s\<lparr>lastPollTime := now\<rparr>) ps))"
    by (rule processProductUpdates_cache_le)
  then show ?thesis using ApiSuccess
    by (simp add: pollForUpdates_def cache_le_refl)
qed (simp_all add: pollForUpdates_def cache_le_refl)

lemma handleProductUpdate_cache [simp]:
  "productCache (handleProductUpdate s d operation) = productCache s"
  by (simp add: handleProductUpdate_def)

lemma deliver_cache_le: "cache_le (productCache s) (productCache (deliver s d))"
  by (cases d) (simp_all add: cache_le_refl pollForUpdates_cache_le)

lemma run_cache_le: "cache_le (productCache s) (productCache (run s ds))"
  unfolding run_def
proof (induction ds arbitrary: s)
  case Nil
  show ?case by (simp add: cache_le_refl)
next
  case (Cons d ds)
  show ?case
    using cache_le_trans [OF deliver_cache_le Cons.IH] by simp
qed

lemma processProduct_stale:
  "productCache s (productId p) = Some e \<Longrightarrow> lastUpdated p \<le> entry_lastUpdated e \<Longrightarrow>
   processProduct s p = s"
  by (simp add: processProduct_def isNewOrUpdated_def)

lemma processProduct_idem: "processProduct (processProduct s p) p = processProduct s p"
  by (simp add: processProduct_def isNewOrUpdated_def split: option.splits)


lemma processProduct_lastPollTime [simp]: "lastPollTime (processProduct s p) = lastPollTime s"
  by (simp add: processProduct_def)

lemma isNewOrUpdated_iff:
  "isNewOrUpdated s p \<longleftrightarrow>
     (productCache s (productId p) = None \<or>
      (\<exists>e. productCache s (productId p) = Some e \<and> entry_lastUpdated e < lastUpdated p))"
  by (auto simp: isNewOrUpdated_def split: option.splits)

lemma processProduct_cache_eq_iff:
  "productCache (processProduct s p) = productCache s \<longleftrightarrow> \<not> isNewOrUpdated s p"
proof
  assume eq: "productCache (processProduct s p) = productCache s"
  show "\<not> isNewOrUpdated s p"
  proof
    assume new: "isNewOrUpdated s p"
    then have "productCache (processProduct s p) (productId p) =
        Some \<lparr>entry_product = p, entry_lastUpdated = lastUpdated p\<rparr>"
      by (simp add: processProduct_def)
    with eq have "productCache s (productId p) =
        Some \<lparr>entry_product = p, entry_lastUpdated = lastUpdated p\<rparr>"
      by simp
    with new show False by (simp add: isNewOrUpdated_def)
  qed
next
  assume "\<not> isNewOrUpdated s p"
  then show "productCache (processProduct s p) = productCache s"
    by (simp add: processProduct_def)
qed

lemma processProduct_embed_eq_iff:
  "embedUpdates (processProduct s p) = embedUpdates s @ [FullDocument p] \<longleftrightarrow> isNewOrUpdated s p"
  by (simp add: processProduct_def)

text \<open>
  Claim C1, as the code has it. A snapshot carried by a poll goes through
  \<^verbatim>\<open>processProductUpdates\<close>: the cache entry is written when the snapshot is new or
  strictly newer, and the presentation update is made exactly then. A snapshot carried by
  a pushed \<^verbatim>\<open>insert\<close> or \<^verbatim>\<open>update\<close> goes through
  \<^verbatim>\<open>handleProductUpdate\<close>, which is another function: it makes the presentation
  update whatever the version and never writes the cache. So after the same snapshot the
  two caches agree exactly when the snapshot is stale, and the two presentation traces
  agree exactly when it is new or strictly newer.
\<close>

theorem C1_push_versus_poll:
  assumes "operation = ''insert'' \<or> operation = ''update''"
  shows "productCache (handleProductUpdate s (FullDocument p) operation) = productCache s
    \<and> embedUpdates (handleProductUpdate s (FullDocument p) operation) =
        embedUpdates s @ [FullDocument p]
    \<and> processProductUpdates s [p] =
        (if isNewOrUpdated s p
         then s\<lparr>productCache := (productCache s)(productId p \<mapsto>
                    \<lparr>entry_product = p, entry_lastUpdated = lastUpdated p\<rparr>),
                embedUpdates := embedUpdates s @ [FullDocument p]\<rparr>
         else s)
    \<and> (productCache (handleProductUpdate s (FullDocument p) operation) =
         productCache (processProductUpdates s [p]) \<longleftrightarrow> \<not> isNewOrUpdated s p)
    \<and> (embedUpdates (handleProductUpdate s (FullDocument p) operation) =
         embedUpdates (processProductUpdates s [p]) \<longleftrightarrow> isNewOrUpdated s p)"
proof -
  have push: "handleProductUpdate s (FullDocument p) operation =
      s\<lparr>embedUpdates := embedUpdates s @ [FullDocument p]\<rparr>"
    using assms by (auto simp: handleProductUpdate_def)
  have cache: "productCache s = productCache (processProduct s p) \<longleftrightarrow> \<not> isNewOrUpdated s p"
    using processProduct_cache_eq_iff [of s p] by auto
  have embed: "embedUpdates s @ [FullDocument p] = embedUpdates (processProduct s p)
      \<longleftrightarrow> isNewOrUpdated s p"
    using processProduct_embed_eq_iff [of s p] by auto
  show ?thesis
    using cache embed by (simp add: push) (simp add: processProduct_def)
qed

text \<open>The statement of C1 at the empty cache and a pushed \<^verbatim>\<open>update\<close> of P1.\<close>

theorem C1_push_versus_poll_witness:
  "(''update'' = ''insert'' \<or> ''update'' = ''update'')
   \<and> productCache (handleProductUpdate initial_agent (FullDocument (P1_at 1000 5)) ''update'') ''P1''
       = None
   \<and> productCache (processProductUpdates initial_agent [P1_at 1000 5]) ''P1''
       = Some \<lparr>entry_product = P1_at 1000 5, entry_lastUpdated = 1000\<rparr>
   \<and> isNewOrUpdated initial_agent (P1_at 1000 5)"
  using C1_push_versus_poll [of "''update''" initial_agent "P1_at 1000 5"]
  by (simp add: initial_agent_def P1_at_def isNewOrUpdated_def)

text \<open>
  C1 as written fails: from the empty cache the pushed snapshot leaves P1 uncached while
  the polled one caches it; and on a cache that holds version 2000, the pushed stale
  snapshot (version 1000) still makes a presentation update while the polled one makes none.
\<close>

theorem C1_counterexample:
  "productCache (handleProductUpdate initial_agent (FullDocument (P1_at 1000 5)) ''update'') ''P1''
     = None
   \<and> productCache (processProductUpdates initial_agent [P1_at 1000 5]) ''P1''
     = Some \<lparr>entry_product = P1_at 1000 5, entry_lastUpdated = 1000\<rparr>
   \<and> embedUpdates (handleProductUpdate
        (processProductUpdates initial_agent [P1_at 2000 3]) (FullDocument (P1_at 1000 5)) ''update'')
     = [FullDocument (P1_at 2000 3), FullDocument (P1_at 1000 5)]
   \<and> embedUpdates (processProductUpdates
        (processProductUpdates initial_agent [P1_at 2000 3]) [P1_at 1000 5])
     = [FullDocument (P1_at 2000 3)]"
  by (simp add: initial_agent_def P1_at_def handleProductUpdate_def processProduct_def
      isNewOrUpdated_def)


lemma processProduct_other:
  "k \<noteq> productId p \<Longrightarrow> productCache (processProduct s p) k = productCache s k"
  by (simp add: processProduct_def)

lemma processProduct_covers:
  "\<exists>e. productCache (processProduct s p) (productId p) = Some e
       \<and> lastUpdated p \<le> entry_lastUpdated e"
  by (auto simp: processProduct_def isNewOrUpdated_def split: option.splits)

lemma processProduct_origin:
  "productCache (processProduct s p) k = Some e' \<Longrightarrow>
   productCache s k = Some e' \<or>
   (productId p = k \<and> e' = \<lparr>entry_product = p, entry_lastUpdated = lastUpdated p\<rparr>)"
  by (auto simp: processProduct_def split: if_splits)

lemma processProductUpdates_other:
  "k \<notin> productId ` set ps \<Longrightarrow> productCache (processProductUpdates s ps) k = productCache s k"
  by (induction ps arbitrary: s) (simp_all add: processProduct_other)

lemma processProductUpdates_covers:
  "p \<in> set ps \<Longrightarrow>
   \<exists>e. productCache (processProductUpdates s ps) (productId p) = Some e
       \<and> lastUpdated p \<le> entry_lastUpdated e"
proof (induction ps arbitrary: s)
  case Nil
  then show ?case by simp
next
  case (Cons q ps)
  show ?case
  proof (cases "p \<in> set ps")
    case True
    then show ?thesis using Cons.IH by simp
  next
    case False
    with Cons.prems have "p = q" by simp
    obtain e where e: "productCache (processProduct s p) (productId p) = Some e"
      "lastUpdated p \<le> entry_lastUpdated e"
      using processProduct_covers by blast
    have "cache_le (productCache (processProduct s p))
            (productCache (processProductUpdates (processProduct s p) ps))"
      by (rule processProductUpdates_cache_le)
    with e obtain e' where
      "productCache (processProductUpdates (processProduct s p) ps) (productId p) = Some e'"
      "entry_lastUpdated e \<le> entry_lastUpdated e'"
      unfolding cache_le_def by blast
    with e(2) \<open>p = q\<close> show ?thesis by auto
  qed
qed

lemma processProductUpdates_origin:
  "productCache (processProductUpdates s ps) k = Some e' \<Longrightarrow>
   productCache s k = Some e' \<or>
   (\<exists>p \<in> set ps. productId p = k \<and> e' = \<lparr>entry_product = p, entry_lastUpdated = lastUpdated p\<rparr>)"
proof (induction ps arbitrary: s)
  case Nil
  then show ?case by simp
next
  case (Cons q ps)
  from Cons.prems have "productCache (processProductUpdates (processProduct s q) ps) k = Some e'"
    by simp
  from Cons.IH [OF this] show ?case
    using processProduct_origin [of s q k e'] by auto
qed

lemma processProductUpdates_lastPollTime [simp]:
  "lastPollTime (processProductUpdates s ps) = lastPollTime s"
  by (induction ps arbitrary: s) simp_all

lemma processProductUpdates_all_stale:
  "\<forall>p \<in> set ps. \<not> isNewOrUpdated s p \<Longrightarrow> processProductUpdates s ps = s"
  by (induction ps) (simp_all add: processProduct_def)

lemma processProductUpdates_then_stale:
  "p \<in> set ps \<Longrightarrow> \<not> isNewOrUpdated (processProductUpdates s ps) p"
  using processProductUpdates_covers [of p ps s]
  by (auto simp: isNewOrUpdated_def)

lemma processProductUpdates_idem:
  "processProductUpdates (processProductUpdates s ps) ps = processProductUpdates s ps"
  by (rule processProductUpdates_all_stale) (simp add: processProductUpdates_then_stale)

lemma run_pushes_cache:
  "\<forall>d \<in> set ds. is_push d \<Longrightarrow> productCache (run s ds) = productCache s"
  unfolding run_def
proof (induction ds arbitrary: s)
  case Nil
  show ?case by simp
next
  case (Cons d ds)
  then obtain x operation where "d = Push x operation"
    by (cases d) (auto simp: is_push_def)
  with Cons show ?case by simp
qed


text \<open>
  Claim C2, as the code has it. Over any sequence of deliveries (pushes and polls, in any
  order, repeated at will) an entry once cached stays cached and its version never
  decreases. A snapshot whose version is at most the cached one is a no-op on the cache,
  on both paths. A snapshot carried by a poll is applied (entry written, presentation
  updated) iff no entry is cached or its version is strictly greater, and is a no-op
  otherwise; applying the same snapshot, or the same poll result, twice equals applying it
  once. A snapshot carried by push never changes the cache, and a pushed
  \<^verbatim>\<open>insert\<close> or \<^verbatim>\<open>update\<close> makes its presentation update whatever its version,
  also when it is stale.
\<close>

theorem C2_version_gate:
  "(\<forall>k e. productCache s k = Some e \<longrightarrow>
      (\<exists>e'. productCache (run s ds) k = Some e' \<and> entry_lastUpdated e \<le> entry_lastUpdated e'))
   \<and> (\<forall>e. productCache s (productId p) = Some e \<and> lastUpdated p \<le> entry_lastUpdated e \<longrightarrow>
        processProductUpdates s [p] = s
        \<and> productCache (handleProductUpdate s (FullDocument p) operation) = productCache s)
   \<and> (processProductUpdates s [p] =
        s\<lparr>productCache := (productCache s)(productId p \<mapsto>
              \<lparr>entry_product = p, entry_lastUpdated = lastUpdated p\<rparr>),
          embedUpdates := embedUpdates s @ [FullDocument p]\<rparr>
       \<longleftrightarrow> (productCache s (productId p) = None \<or>
            (\<exists>e. productCache s (productId p) = Some e \<and> entry_lastUpdated e < lastUpdated p)))
   \<and> (processProductUpdates s [p] = s
       \<longleftrightarrow> (\<exists>e. productCache s (productId p) = Some e \<and> lastUpdated p \<le> entry_lastUpdated e))
   \<and> processProductUpdates (processProductUpdates s [p]) [p] = processProductUpdates s [p]
   \<and> processProductUpdates (processProductUpdates s ps) ps = processProductUpdates s ps
   \<and> productCache (handleProductUpdate s d operation) = productCache s
   \<and> (operation = ''insert'' \<or> operation = ''update'' \<longrightarrow>
        embedUpdates (handleProductUpdate s d operation) = embedUpdates s @ [d])"
proof -
  have mono: "\<forall>k e. productCache s k = Some e \<longrightarrow>
      (\<exists>e'. productCache (run s ds) k = Some e' \<and> entry_lastUpdated e \<le> entry_lastUpdated e')"
    using run_cache_le [of s ds] by (simp add: cache_le_def)
  have stale: "\<forall>e. productCache s (productId p) = Some e \<and> lastUpdated p \<le> entry_lastUpdated e \<longrightarrow>
        processProductUpdates s [p] = s
        \<and> productCache (handleProductUpdate s (FullDocument p) operation) = productCache s"
    by (simp add: processProduct_stale)
  have differs: "s\<lparr>productCache := (productCache s)(productId p \<mapsto>
              \<lparr>entry_product = p, entry_lastUpdated = lastUpdated p\<rparr>),
          embedUpdates := embedUpdates s @ [FullDocument p]\<rparr> \<noteq> s"
  proof
    assume "s\<lparr>productCache := (productCache s)(productId p \<mapsto>
              \<lparr>entry_product = p, entry_lastUpdated = lastUpdated p\<rparr>),
          embedUpdates := embedUpdates s @ [FullDocument p]\<rparr> = s"
    then have "embedUpdates (s\<lparr>productCache := (productCache s)(productId p \<mapsto>
              \<lparr>entry_product = p, entry_lastUpdated = lastUpdated p\<rparr>),
          embedUpdates := embedUpdates s @ [FullDocument p]\<rparr>) = embedUpdates s"
      by simp
    then show False by simp
  qed
  have applied: "processProductUpdates s [p] =
        s\<lparr>productCache := (productCache s)(productId p \<mapsto>
              \<lparr>entry_product = p, entry_lastUpdated = lastUpdated p\<rparr>),
          embedUpdates := embedUpdates s @ [FullDocument p]\<rparr>
       \<longleftrightarrow> (productCache s (productId p) = None \<or>
            (\<exists>e. productCache s (productId p) = Some e \<and> entry_lastUpdated e < lastUpdated p))"
    using differs by (auto simp: processProduct_def isNewOrUpdated_iff)
  have noop: "processProductUpdates s [p] = s
       \<longleftrightarrow> (\<exists>e. productCache s (productId p) = Some e \<and> lastUpdated p \<le> entry_lastUpdated e)"
    using differs
    by (cases "productCache s (productId p)") (auto simp: processProduct_def isNewOrUpdated_def)
  have idem: "processProductUpdates (processProductUpdates s [p]) [p] = processProductUpdates s [p]"
    by (rule processProductUpdates_idem)
  have idems: "processProductUpdates (processProductUpdates s ps) ps = processProductUpdates s ps"
    by (rule processProductUpdates_idem)
  have pres: "operation = ''insert'' \<or> operation = ''update'' \<longrightarrow>
        embedUpdates (handleProductUpdate s d operation) = embedUpdates s @ [d]"
    by (auto simp: handleProductUpdate_def)
  show ?thesis
    using mono stale applied noop idem idems handleProductUpdate_cache pres by blast
qed

text \<open>
  The statement of C2 on a cache holding P1 at version 2000: the snapshot of version 1000
  is a no-op when polled, makes its presentation update when pushed, and after a push and
  a later poll the cached version is at least 2000.
\<close>

theorem C2_version_gate_witness:
  "productCache (processProductUpdates initial_agent [P1_at 2000 3]) ''P1''
     = Some \<lparr>entry_product = P1_at 2000 3, entry_lastUpdated = 2000\<rparr>
   \<and> lastUpdated (P1_at 1000 5) \<le> 2000
   \<and> processProductUpdates (processProductUpdates initial_agent [P1_at 2000 3]) [P1_at 1000 5]
     = processProductUpdates initial_agent [P1_at 2000 3]
   \<and> (\<exists>e'. productCache (run (processProductUpdates initial_agent [P1_at 2000 3])
              [Push (FullDocument (P1_at 1000 5)) ''update'',
               Poll 9000 (ApiSuccess [P1_at 3000 0])]) ''P1'' = Some e'
          \<and> 2000 \<le> entry_lastUpdated e')
   \<and> embedUpdates (handleProductUpdate (processProductUpdates initial_agent [P1_at 2000 3])
        (FullDocument (P1_at 1000 5)) ''update'')
     = embedUpdates (processProductUpdates initial_agent [P1_at 2000 3])
         @ [FullDocument (P1_at 1000 5)]"
proof -
  let ?s = "processProductUpdates initial_agent [P1_at 2000 3]"
  let ?e = "\<lparr>entry_product = P1_at 2000 3, entry_lastUpdated = 2000\<rparr>"
  have c: "productCache ?s ''P1'' = Some ?e"
    by (simp add: initial_agent_def P1_at_def processProduct_def isNewOrUpdated_def)
  have v: "lastUpdated (P1_at 1000 5) \<le> 2000"
    by (simp add: P1_at_def)
  have i: "productId (P1_at 1000 5) = ''P1''"
    by (simp add: P1_at_def)
  note inst = C2_version_gate [of ?s
      "[Push (FullDocument (P1_at 1000 5)) ''update'', Poll 9000 (ApiSuccess [P1_at 3000 0])]"
      "P1_at 1000 5" "''update''" "[]" "FullDocument (P1_at 1000 5)"]
  from inst have "\<forall>k e. productCache ?s k = Some e \<longrightarrow>
      (\<exists>e'. productCache (run ?s
          [Push (FullDocument (P1_at 1000 5)) ''update'', Poll 9000 (ApiSuccess [P1_at 3000 0])]) k
          = Some e' \<and> entry_lastUpdated e \<le> entry_lastUpdated e')"
    by blast
  with c have mono: "\<exists>e'. productCache (run ?s
          [Push (FullDocument (P1_at 1000 5)) ''update'', Poll 9000 (ApiSuccess [P1_at 3000 0])]) ''P1''
          = Some e' \<and> 2000 \<le> entry_lastUpdated e'"
    by fastforce
  from inst have "\<forall>e. productCache ?s (productId (P1_at 1000 5)) = Some e
        \<and> lastUpdated (P1_at 1000 5) \<le> entry_lastUpdated e \<longrightarrow>
        processProductUpdates ?s [P1_at 1000 5] = ?s"
    by blast
  with c v i have stale: "processProductUpdates ?s [P1_at 1000 5] = ?s"
    by simp
  from inst have "''update'' = ''insert'' \<or> ''update'' = ''update'' \<longrightarrow>
      embedUpdates (handleProductUpdate ?s (FullDocument (P1_at 1000 5)) ''update'')
        = embedUpdates ?s @ [FullDocument (P1_at 1000 5)]"
    by blast
  then have pres: "embedUpdates (handleProductUpdate ?s (FullDocument (P1_at 1000 5)) ''update'')
        = embedUpdates ?s @ [FullDocument (P1_at 1000 5)]"
    by simp
  from c v mono stale pres show ?thesis by blast
qed

text \<open>
  C2 as written fails for push: P1 is cached at version 1000, the pushed snapshot has
  version 2000, and the cache still holds version 1000; and a pushed stale snapshot still
  makes a presentation update.
\<close>

theorem C2_counterexample:
  "productCache (processProductUpdates initial_agent [P1_at 1000 5]) ''P1''
     = Some \<lparr>entry_product = P1_at 1000 5, entry_lastUpdated = 1000\<rparr>
   \<and> lastUpdated (P1_at 2000 3) > 1000
   \<and> productCache (handleProductUpdate (processProductUpdates initial_agent [P1_at 1000 5])
        (FullDocument (P1_at 2000 3)) ''update'') ''P1''
     = Some \<lparr>entry_product = P1_at 1000 5, entry_lastUpdated = 1000\<rparr>
   \<and> embedUpdates (handleProductUpdate (processProductUpdates initial_agent [P1_at 2000 3])
        (FullDocument (P1_at 1000 5)) ''update'')
     \<noteq> embedUpdates (processProductUpdates initial_agent [P1_at 2000 3])"
  by (simp add: initial_agent_def P1_at_def handleProductUpdate_def processProduct_def
      isNewOrUpdated_def)

text \<open>
  Claim C3, as the code has it, for the cache. A pushed \<^verbatim>\<open>delete\<close> leaves the cache
  as it is, whatever is cached, and no pushed event that follows it changes the cache: the
  entry stays cached as it was.
\<close>

theorem C3_delete_leaves_cache:
  "productCache (handleProductUpdate s d ''delete'') = productCache s
   \<and> ((\<forall>x \<in> set ds. is_push x) \<longrightarrow>
        productCache (run s (Push d ''delete'' # ds)) = productCache s)"
proof -
  have del: "productCache (handleProductUpdate s d ''delete'') = productCache s"
    by (rule handleProductUpdate_cache)
  have "(\<forall>x \<in> set ds. is_push x) \<longrightarrow> productCache (run s (Push d ''delete'' # ds)) = productCache s"
  proof
    assume "\<forall>x \<in> set ds. is_push x"
    then have "\<forall>x \<in> set (Push d ''delete'' # ds). is_push x"
      by (simp add: is_push_def)
    then show "productCache (run s (Push d ''delete'' # ds)) = productCache s"
      by (rule run_pushes_cache)
  qed
  with del show ?thesis by simp
qed

text \<open>
  The statement of C3 on a cache holding P1: after a \<^verbatim>\<open>delete\<close> and a stale
  \<^verbatim>\<open>update\<close> the entry is the one cached before.
\<close>

theorem C3_delete_leaves_cache_witness:
  "is_push (Push (FullDocument (P1_at 500 9)) ''update'')
   \<and> productCache (run (processProductUpdates initial_agent [P1_at 1000 5])
        [Push (DocumentKey ''P1'') ''delete'', Push (FullDocument (P1_at 500 9)) ''update'']) ''P1''
     = Some \<lparr>entry_product = P1_at 1000 5, entry_lastUpdated = 1000\<rparr>"
proof -
  have p: "\<forall>x \<in> set [Push (FullDocument (P1_at 500 9)) ''update'']. is_push x"
    by (simp add: is_push_def)
  have c: "productCache (processProductUpdates initial_agent [P1_at 1000 5]) ''P1''
     = Some \<lparr>entry_product = P1_at 1000 5, entry_lastUpdated = 1000\<rparr>"
    by (simp add: initial_agent_def P1_at_def processProduct_def isNewOrUpdated_def)
  from C3_delete_leaves_cache [of "processProductUpdates initial_agent [P1_at 1000 5]"
      "DocumentKey ''P1''" "[Push (FullDocument (P1_at 500 9)) ''update'']"] p
  have "productCache (run (processProductUpdates initial_agent [P1_at 1000 5])
        [Push (DocumentKey ''P1'') ''delete'', Push (FullDocument (P1_at 500 9)) ''update''])
      = productCache (processProductUpdates initial_agent [P1_at 1000 5])"
    by blast
  with c show ?thesis by (simp add: is_push_def)
qed

text \<open>
  C3 as written fails: P1 is cached, the \<^verbatim>\<open>delete\<close> is handled (with the document
  key or with the full document as data), and P1 is still cached.
\<close>

theorem C3_counterexample:
  "productCache (processProductUpdates initial_agent [P1_at 1000 5]) ''P1''
     = Some \<lparr>entry_product = P1_at 1000 5, entry_lastUpdated = 1000\<rparr>
   \<and> productCache (handleProductUpdate (processProductUpdates initial_agent [P1_at 1000 5])
        (DocumentKey ''P1'') ''delete'') ''P1''
     = Some \<lparr>entry_product = P1_at 1000 5, entry_lastUpdated = 1000\<rparr>
   \<and> productCache (handleProductUpdate (processProductUpdates initial_agent [P1_at 1000 5])
        (FullDocument (P1_at 1000 5)) ''delete'') ''P1''
     = Some \<lparr>entry_product = P1_at 1000 5, entry_lastUpdated = 1000\<rparr>"
  by (simp add: initial_agent_def P1_at_def handleProductUpdate_def processProduct_def
      isNewOrUpdated_def)


lemma processProduct_keeps:
  "productCache s k = Some e \<Longrightarrow> (productId p = k \<longrightarrow> lastUpdated p \<le> entry_lastUpdated e) \<Longrightarrow>
   productCache (processProduct s p) k = Some e"
  by (auto simp: processProduct_def isNewOrUpdated_def)

lemma processProductUpdates_keeps:
  "productCache s k = Some e \<Longrightarrow>
   \<forall>p \<in> set ps. productId p = k \<longrightarrow> lastUpdated p \<le> entry_lastUpdated e \<Longrightarrow>
   productCache (processProductUpdates s ps) k = Some e"
proof (induction ps arbitrary: s)
  case Nil
  then show ?case by simp
next
  case (Cons q ps)
  from Cons.prems have "productCache (processProduct s q) k = Some e"
    by (simp add: processProduct_keeps)
  with Cons show ?case by simp
qed

lemma run_snoc: "run s (ds @ [d]) = deliver (run s ds) d"
  by (simp add: run_def)

lemma pollForUpdates_completed:
  "\<not> now - lastPollTime s < 5000 \<Longrightarrow>
   productCache (pollForUpdates s now (ApiSuccess ps)) =
   productCache (processProductUpdates (s\<lparr>lastPollTime := now\<rparr>) ps)"
  by (simp add: pollForUpdates_def)

text \<open>
  Claim C4, as the code has it. After any sequence of deliveries that ends with a completed
  poll (not rate-limited, answered with the final catalog): every product of the catalog
  is cached with a version at least the catalog's; no cached version has decreased; every
  cached entry is either the entry cached before that poll or a snapshot of the catalog;
  an entry cached before is kept when no snapshot of the catalog for its product is
  strictly newer, so on a tie the cached entry stays;
  and the entries of products absent from the catalog are kept as they were, so the cached
  identifiers are those cached before together with those of the catalog.
\<close>

theorem C4_poll_of_final_catalog:
  fixes s :: sync_agent and ds :: "delivery list" and final :: "product list" and now :: int
  defines "before \<equiv> productCache (run s ds)"
    and "after \<equiv> productCache (run s (ds @ [Poll now (ApiSuccess final)]))"
  assumes completed: "\<not> now - lastPollTime (run s ds) < 5000"
  shows "(\<forall>p \<in> set final. \<exists>e. after (productId p) = Some e \<and> lastUpdated p \<le> entry_lastUpdated e)
    \<and> (\<forall>k e. before k = Some e \<longrightarrow>
          (\<exists>e'. after k = Some e' \<and> entry_lastUpdated e \<le> entry_lastUpdated e'))
    \<and> (\<forall>k e'. after k = Some e' \<longrightarrow>
          before k = Some e' \<or>
          (\<exists>p \<in> set final. productId p = k
             \<and> e' = \<lparr>entry_product = p, entry_lastUpdated = lastUpdated p\<rparr>))
    \<and> (\<forall>k e. before k = Some e
          \<and> (\<forall>p \<in> set final. productId p = k \<longrightarrow> lastUpdated p \<le> entry_lastUpdated e) \<longrightarrow>
          after k = Some e)
    \<and> (\<forall>k. k \<notin> productId ` set final \<longrightarrow> after k = before k)
    \<and> dom after = dom before \<union> productId ` set final"
proof -
  let ?t = "(run s ds)\<lparr>lastPollTime := now\<rparr>"
  have after: "after = productCache (processProductUpdates ?t final)"
    unfolding after_def run_snoc using completed by (simp add: pollForUpdates_completed)
  have before: "before = productCache ?t"
    by (simp add: before_def)
  have covers: "\<forall>p \<in> set final. \<exists>e. after (productId p) = Some e
      \<and> lastUpdated p \<le> entry_lastUpdated e"
    unfolding after using processProductUpdates_covers by blast
  have mono: "\<forall>k e. before k = Some e \<longrightarrow>
      (\<exists>e'. after k = Some e' \<and> entry_lastUpdated e \<le> entry_lastUpdated e')"
    using processProductUpdates_cache_le [of ?t final]
    unfolding after before cache_le_def by blast
  have origin: "\<forall>k e'. after k = Some e' \<longrightarrow>
      before k = Some e' \<or>
      (\<exists>p \<in> set final. productId p = k
         \<and> e' = \<lparr>entry_product = p, entry_lastUpdated = lastUpdated p\<rparr>)"
    unfolding after before using processProductUpdates_origin by blast
  have other: "\<forall>k. k \<notin> productId ` set final \<longrightarrow> after k = before k"
    unfolding after before using processProductUpdates_other by blast
  have "dom after = dom before \<union> productId ` set final"
  proof
    show "dom after \<subseteq> dom before \<union> productId ` set final"
      using origin by (auto simp: dom_def)
    show "dom before \<union> productId ` set final \<subseteq> dom after"
      using mono covers by (auto simp: dom_def) blast
  qed
  have domeq: "dom after = dom before \<union> productId ` set final"
    by fact
  have keeps: "\<forall>k e. before k = Some e
      \<and> (\<forall>p \<in> set final. productId p = k \<longrightarrow> lastUpdated p \<le> entry_lastUpdated e) \<longrightarrow>
      after k = Some e"
    unfolding after before using processProductUpdates_keeps by blast
  show ?thesis
    apply (intro conjI)
         apply (rule covers)
        apply (rule mono)
       apply (rule origin)
      apply (rule keeps)
     apply (rule other)
    apply (rule domeq)
    done
qed

text \<open>
  The statement of C4 on a run that polls P1 at version 1000, receives a push, and ends
  with a poll of the catalog holding P1 at version 3000, or holding P1 at the cached
  version 1000 with another stock (the tie).
\<close>

theorem C4_poll_of_final_catalog_witness:
  "\<not> 12000 - lastPollTime (run initial_agent
        [Poll 6000 (ApiSuccess [P1_at 1000 5]), Push (FullDocument (P1_at 2000 3)) ''update''])
      < 5000
   \<and> productCache (run initial_agent
        ([Poll 6000 (ApiSuccess [P1_at 1000 5]), Push (FullDocument (P1_at 2000 3)) ''update'']
         @ [Poll 12000 (ApiSuccess [P1_at 3000 0])])) ''P1''
     = Some \<lparr>entry_product = P1_at 3000 0, entry_lastUpdated = 3000\<rparr>
   \<and> lastUpdated (P1_at 1000 9) \<le> 1000
   \<and> productCache (run initial_agent
        ([Poll 6000 (ApiSuccess [P1_at 1000 5]), Push (FullDocument (P1_at 2000 3)) ''update'']
         @ [Poll 12000 (ApiSuccess [P1_at 1000 9])])) ''P1''
     = Some \<lparr>entry_product = P1_at 1000 5, entry_lastUpdated = 1000\<rparr>"
proof -
  let ?ds = "[Poll 6000 (ApiSuccess [P1_at 1000 5]), Push (FullDocument (P1_at 2000 3)) ''update'']"
  have t: "\<not> 12000 - lastPollTime (run initial_agent ?ds) < 5000"
    by (simp add: run_def pollForUpdates_def handleProductUpdate_def processProduct_def
        isNewOrUpdated_def initial_agent_def)
  have b: "productCache (run initial_agent ?ds) ''P1''
      = Some \<lparr>entry_product = P1_at 1000 5, entry_lastUpdated = 1000\<rparr>"
    by (simp add: run_def pollForUpdates_def handleProductUpdate_def processProduct_def
        isNewOrUpdated_def initial_agent_def P1_at_def)
  note inst = C4_poll_of_final_catalog [of 12000 initial_agent ?ds "[P1_at 3000 0]", OF t]
  from inst have "\<exists>e. productCache (run initial_agent (?ds @ [Poll 12000 (ApiSuccess [P1_at 3000 0])]))
        (productId (P1_at 3000 0)) = Some e \<and> lastUpdated (P1_at 3000 0) \<le> entry_lastUpdated e"
    by simp
  then obtain e where e: "productCache (run initial_agent
        (?ds @ [Poll 12000 (ApiSuccess [P1_at 3000 0])])) ''P1'' = Some e"
      "3000 \<le> entry_lastUpdated e"
    by (auto simp: P1_at_def)
  from inst e(1) have "productCache (run initial_agent ?ds) ''P1'' = Some e \<or>
      (\<exists>p \<in> set [P1_at 3000 0]. productId p = ''P1''
         \<and> e = \<lparr>entry_product = p, entry_lastUpdated = lastUpdated p\<rparr>)"
    by blast
  with b e(2) have "e = \<lparr>entry_product = P1_at 3000 0, entry_lastUpdated = 3000\<rparr>"
    by (auto simp: P1_at_def)
  with e(1) have newer: "productCache (run initial_agent
        (?ds @ [Poll 12000 (ApiSuccess [P1_at 3000 0])])) ''P1''
      = Some \<lparr>entry_product = P1_at 3000 0, entry_lastUpdated = 3000\<rparr>"
    by simp
  have v: "lastUpdated (P1_at 1000 9) \<le> 1000"
    by (simp add: P1_at_def)
  note tie = C4_poll_of_final_catalog [of 12000 initial_agent ?ds "[P1_at 1000 9]", OF t]
  from tie have "\<forall>k e. productCache (run initial_agent ?ds) k = Some e
      \<and> (\<forall>p \<in> set [P1_at 1000 9]. productId p = k \<longrightarrow> lastUpdated p \<le> entry_lastUpdated e) \<longrightarrow>
      productCache (run initial_agent (?ds @ [Poll 12000 (ApiSuccess [P1_at 1000 9])])) k = Some e"
    by blast
  with b v have kept: "productCache (run initial_agent
        (?ds @ [Poll 12000 (ApiSuccess [P1_at 1000 9])])) ''P1''
      = Some \<lparr>entry_product = P1_at 1000 5, entry_lastUpdated = 1000\<rparr>"
    by simp
  from t newer v kept show ?thesis by blast
qed

text \<open>
  C4 as written fails: P1 is polled, then deleted, and the last completed poll returns the
  empty catalog; P1 is still cached.
\<close>

theorem C4_counterexample:
  "\<not> 12000 - lastPollTime (run initial_agent
        [Poll 6000 (ApiSuccess [P1_at 1000 5]), Push (DocumentKey ''P1'') ''delete'']) < 5000
   \<and> productCache (run initial_agent
        [Poll 6000 (ApiSuccess [P1_at 1000 5]), Push (DocumentKey ''P1'') ''delete'',
         Poll 12000 (ApiSuccess [])]) ''P1''
     = Some \<lparr>entry_product = P1_at 1000 5, entry_lastUpdated = 1000\<rparr>"
  by (simp add: run_def pollForUpdates_def handleProductUpdate_def processProduct_def
      isNewOrUpdated_def initial_agent_def P1_at_def)


section \<open>Properties of the connection manager\<close>

lemma send_fields [simp]:
  "isConnected (send s m) = isConnected s"
  "reconnectAttempts (send s m) = reconnectAttempts s"
  "fallbackPollingInterval (send s m) = fallbackPollingInterval s"
  "scheduledReconnects (send s m) = scheduledReconnects s"
  by (simp_all add: send_def)

lemma onOpen_fields [simp]:
  "isConnected (onOpen s now)"
  "reconnectAttempts (onOpen s now) = 0"
  "\<not> fallbackPollingInterval (onOpen s now)"
  "scheduledReconnects (onOpen s now) = scheduledReconnects s"
  by (simp_all add: onOpen_def stopFallbackPolling_def startHeartbeat_def)

lemma handleDisconnection_isConnected [simp]: "\<not> isConnected (handleDisconnection s)"
  by (simp add: handleDisconnection_def Let_def stopHeartbeat_def startFallbackPolling_def)

lemma handleDisconnection_attempts:
  "reconnectAttempts (handleDisconnection s) =
     (if reconnectAttempts s < maxReconnectAttempts then reconnectAttempts s + 1
      else reconnectAttempts s)"
  by (simp add: handleDisconnection_def Let_def stopHeartbeat_def startFallbackPolling_def)

lemma handleDisconnection_scheduled:
  "scheduledReconnects (handleDisconnection s) =
     (if reconnectAttempts s < maxReconnectAttempts
      then scheduledReconnects s @ [reconnectDelay * (reconnectAttempts s + 1)]
      else scheduledReconnects s)"
  by (simp add: handleDisconnection_def Let_def stopHeartbeat_def startFallbackPolling_def)

lemma handleDisconnection_polling:
  "fallbackPollingInterval (handleDisconnection s) =
     (fallbackPollingInterval s \<or> reconnectAttempts s = 0
      \<or> \<not> reconnectAttempts s < maxReconnectAttempts)"
  by (auto simp: handleDisconnection_def Let_def stopHeartbeat_def startFallbackPolling_def)

lemma disconnect_fields [simp]:
  "\<not> isConnected (disconnect s)"
  "reconnectAttempts (disconnect s) = reconnectAttempts s"
  "\<not> fallbackPollingInterval (disconnect s)"
  by (simp_all add: disconnect_def stopFallbackPolling_def stopHeartbeat_def)

lemma handle_event_dormant:
  "dormant_when_connected s \<Longrightarrow> dormant_when_connected (handle_event s e)"
proof (cases e)
  case Disconnection
  assume "dormant_when_connected s"
  then show ?thesis using Disconnection
    by (auto simp: dormant_when_connected_def handleDisconnection_polling
        handleDisconnection_attempts maxReconnectAttempts_def)
qed (auto simp: dormant_when_connected_def connect_def split: option.splits)

lemma run_events_dormant:
  "dormant_when_connected s \<Longrightarrow> dormant_when_connected (run_events s es)"
  unfolding run_events_def
  by (induction es arbitrary: s) (simp_all add: handle_event_dormant)

lemma handle_event_polls:
  "e \<noteq> Stop \<Longrightarrow> polls_while_retrying s \<Longrightarrow> polls_while_retrying (handle_event s e)"
proof (cases e)
  case Disconnection
  assume "polls_while_retrying s"
  then show ?thesis using Disconnection
    by (auto simp: polls_while_retrying_def handleDisconnection_polling
        handleDisconnection_attempts maxReconnectAttempts_def)
qed (auto simp: polls_while_retrying_def connect_def split: option.splits)

lemma run_events_polls:
  "Stop \<notin> set es \<Longrightarrow> polls_while_retrying s \<Longrightarrow> polls_while_retrying (run_events s es)"
  unfolding run_events_def
proof (induction es arbitrary: s)
  case Nil
  then show ?case by simp
next
  case (Cons e es)
  then have "polls_while_retrying (handle_event s e)"
    using handle_event_polls [of e s] by auto
  with Cons show ?case by simp
qed


lemma failures_Suc: "failures (Suc k) s = handleDisconnection (failures k s)"
  by (simp add: failures_def)

lemma failures_attempts:
  "reconnectAttempts s = 0 \<Longrightarrow> k \<le> maxReconnectAttempts \<Longrightarrow> reconnectAttempts (failures k s) = k"
proof (induction k)
  case 0
  then show ?case by (simp add: failures_def)
next
  case (Suc k)
  then show ?case by (simp add: failures_Suc handleDisconnection_attempts)
qed

lemma failures_scheduled:
  "reconnectAttempts s = 0 \<Longrightarrow> k \<le> maxReconnectAttempts \<Longrightarrow>
   scheduledReconnects (failures k s) =
     scheduledReconnects s @ map (\<lambda>i. i * reconnectDelay) [1..<Suc k]"
proof (induction k)
  case 0
  then show ?case by (simp add: failures_def)
next
  case (Suc k)
  then have "reconnectAttempts (failures k s) = k" and "k < maxReconnectAttempts"
    by (simp_all add: failures_attempts)
  with Suc show ?case
    by (simp add: failures_Suc handleDisconnection_scheduled mult.commute)
qed

lemma failures_exhausted:
  "\<not> reconnectAttempts s < maxReconnectAttempts \<Longrightarrow>
   scheduledReconnects (failures k s) = scheduledReconnects s
   \<and> reconnectAttempts (failures k s) = reconnectAttempts s
   \<and> (0 < k \<longrightarrow> fallbackPollingInterval (failures k s))"
proof (induction k)
  case 0
  then show ?case by (simp add: failures_def)
next
  case (Suc k)
  then show ?case
    by (simp add: failures_Suc handleDisconnection_scheduled handleDisconnection_attempts
        handleDisconnection_polling)
qed

lemma connect_fields [simp]:
  "reconnectAttempts (connect s) = reconnectAttempts s"
  "scheduledReconnects (connect s) = scheduledReconnects s"
  "fallbackPollingInterval (connect s) = fallbackPollingInterval s"
  "isConnected (connect s) = isConnected s"
  by (simp_all add: connect_def)

lemma initial_fields [simp]:
  "reconnectAttempts initial_manager = 0"
  "scheduledReconnects initial_manager = []"
  "\<not> fallbackPollingInterval initial_manager"
  "\<not> isConnected initial_manager"
  by (simp_all add: initial_manager_def)

lemma initial_dormant: "dormant_when_connected initial_manager"
  by (simp add: dormant_when_connected_def initial_manager_def)

lemma initial_polls: "polls_while_retrying initial_manager"
  by (simp add: polls_while_retrying_def initial_manager_def)

text \<open>
  Claim C5, as the code has it. In every state reached from the initial one: while the
  manager is connected, fallback polling is off and the attempt counter is zero; polling
  is on only while disconnected with a positive counter; and as long as
  \<^verbatim>\<open>disconnect\<close> was not called, polling is on exactly when the counter is positive.
  Polling is switched on by the first disconnection after a connection (counter zero),
  not only when the attempts are exhausted, and the \<^verbatim>\<open>open\<close> handler switches it off.
\<close>

theorem C5_fallback_polling:
  fixes es :: "event list" and now :: int
  defines "s \<equiv> run_events initial_manager es"
  shows "(isConnected s \<longrightarrow> \<not> fallbackPollingInterval s \<and> reconnectAttempts s = 0)
    \<and> (fallbackPollingInterval s \<longrightarrow> 0 < reconnectAttempts s \<and> \<not> isConnected s)
    \<and> (Stop \<notin> set es \<longrightarrow> fallbackPollingInterval s = (0 < reconnectAttempts s))
    \<and> (reconnectAttempts s = 0 \<longrightarrow>
          fallbackPollingInterval (handleDisconnection s)
          \<and> reconnectAttempts (handleDisconnection s) = 1)
    \<and> fallbackPollingInterval (handleDisconnection s)
         = (fallbackPollingInterval s \<or> reconnectAttempts s = 0
            \<or> \<not> reconnectAttempts s < maxReconnectAttempts)
    \<and> \<not> fallbackPollingInterval (onOpen s now)
    \<and> isConnected (onOpen s now)"
proof -
  have d: "dormant_when_connected s"
    unfolding s_def by (rule run_events_dormant [OF initial_dormant])
  have "polls_while_retrying s" if "Stop \<notin> set es"
    unfolding s_def using that initial_polls by (rule run_events_polls)
  then have p: "Stop \<notin> set es \<longrightarrow> fallbackPollingInterval s = (0 < reconnectAttempts s)"
    by (simp add: polls_while_retrying_def)
  have f: "reconnectAttempts s = 0 \<longrightarrow>
      fallbackPollingInterval (handleDisconnection s)
      \<and> reconnectAttempts (handleDisconnection s) = 1"
    by (simp add: handleDisconnection_polling handleDisconnection_attempts
        maxReconnectAttempts_def)
  have h: "fallbackPollingInterval (handleDisconnection s)
      = (fallbackPollingInterval s \<or> reconnectAttempts s = 0
         \<or> \<not> reconnectAttempts s < maxReconnectAttempts)"
    by (rule handleDisconnection_polling)
  from d have d1: "isConnected s \<longrightarrow> \<not> fallbackPollingInterval s \<and> reconnectAttempts s = 0"
    and d2: "fallbackPollingInterval s \<longrightarrow> 0 < reconnectAttempts s \<and> \<not> isConnected s"
    by (auto simp: dormant_when_connected_def)
  have o: "\<not> fallbackPollingInterval (onOpen s now) \<and> isConnected (onOpen s now)"
    by simp
  from d1 d2 p f h o show ?thesis by blast
qed

lemma example_trace_connected:
  "isConnected (run_events initial_manager
     [Connect, Disconnection, Connect, SocketState OPEN, Open 7])"
  by (simp add: run_events_def)

text \<open>
  The statement of C5 on a run that fails once and then connects: connected, not polling,
  counter zero, and the next disconnection switches polling on.
\<close>

theorem C5_fallback_polling_witness:
  "Stop \<notin> set [Connect, Disconnection, Connect, SocketState OPEN, Open 7]
   \<and> isConnected (run_events initial_manager
        [Connect, Disconnection, Connect, SocketState OPEN, Open 7])
   \<and> \<not> fallbackPollingInterval (run_events initial_manager
        [Connect, Disconnection, Connect, SocketState OPEN, Open 7])
   \<and> reconnectAttempts (run_events initial_manager
        [Connect, Disconnection, Connect, SocketState OPEN, Open 7]) = 0
   \<and> fallbackPollingInterval (handleDisconnection (run_events initial_manager
        [Connect, Disconnection, Connect, SocketState OPEN, Open 7]))
   \<and> fallbackPollingInterval (run_events initial_manager [Connect, Disconnection])
   \<and> \<not> isConnected (run_events initial_manager [Connect, Disconnection])
   \<and> 0 < reconnectAttempts (run_events initial_manager [Connect, Disconnection])"
proof -
  have a: "Stop \<notin> set [Connect, Disconnection, Connect, SocketState OPEN, Open 7]" by simp
  note b = example_trace_connected
  note inst = C5_fallback_polling [of "[Connect, Disconnection, Connect, SocketState OPEN, Open 7]" 0]
  from inst b a have first:
    "\<not> fallbackPollingInterval (run_events initial_manager
        [Connect, Disconnection, Connect, SocketState OPEN, Open 7])
     \<and> reconnectAttempts (run_events initial_manager
        [Connect, Disconnection, Connect, SocketState OPEN, Open 7]) = 0
     \<and> fallbackPollingInterval (handleDisconnection (run_events initial_manager
        [Connect, Disconnection, Connect, SocketState OPEN, Open 7]))"
    by blast
  have p: "fallbackPollingInterval (run_events initial_manager [Connect, Disconnection])"
    by (simp add: run_events_def handleDisconnection_polling)
  from C5_fallback_polling [of "[Connect, Disconnection]" 0] p
  have "\<not> isConnected (run_events initial_manager [Connect, Disconnection])
     \<and> 0 < reconnectAttempts (run_events initial_manager [Connect, Disconnection])"
    by blast
  with a b first p show ?thesis by blast
qed

text \<open>
  C5 as written fails: after a single disconnection the counter is 1, below the maximum of
  5, a reconnect is scheduled, and fallback polling is already on.
\<close>

theorem C5_counterexample:
  "fallbackPollingInterval (run_events initial_manager [Connect, Disconnection])
   \<and> reconnectAttempts (run_events initial_manager [Connect, Disconnection]) = 1
   \<and> 1 < maxReconnectAttempts
   \<and> scheduledReconnects (run_events initial_manager [Connect, Disconnection]) = [5000]"
  by (simp add: run_events_def handleDisconnection_polling handleDisconnection_attempts
      handleDisconnection_scheduled maxReconnectAttempts_def reconnectDelay_def)

lemma onOpen_transmitted:
  "transmitted (onOpen s now) =
     (if ws s = Some OPEN then transmitted s @ [SUBSCRIBE_PRODUCTS (guildId s)]
      else transmitted s)"
  by (simp add: onOpen_def send_def stopFallbackPolling_def startHeartbeat_def
      split: option.splits)

lemma failures_add: "failures k (failures j s) = failures (j + k) s"
  by (simp add: failures_def funpow_add add.commute [of j k])

lemma failures_beyond:
  assumes "reconnectAttempts s = 0"
  shows "scheduledReconnects (failures (maxReconnectAttempts + k) s)
           = scheduledReconnects (failures maxReconnectAttempts s)"
proof -
  have "reconnectAttempts (failures maxReconnectAttempts s) = maxReconnectAttempts"
    using assms by (simp add: failures_attempts)
  then have "\<not> reconnectAttempts (failures maxReconnectAttempts s) < maxReconnectAttempts"
    by simp
  from failures_exhausted [OF this, of k] show ?thesis
    by (simp add: failures_add)
qed

text \<open>
  Claim C6, as the code has it. Once the attempt counter has reached the maximum, a
  disconnection schedules no reconnect: it keeps the counter, the manager stays
  disconnected and fallback polling stays on, however many disconnections follow; counted
  from a connection, no reconnect is scheduled beyond the first
  \<^verbatim>\<open>maxReconnectAttempts\<close>. Whenever the \<^verbatim>\<open>open\<close> handler runs, the manager is
  connected, the counter is zero and polling is off; \<^verbatim>\<open>SUBSCRIBE_PRODUCTS\<close> is
  sent iff the current socket is \<^verbatim>\<open>OPEN\<close>.
\<close>

theorem C6_after_exhaustion:
  "(\<not> reconnectAttempts s < maxReconnectAttempts \<longrightarrow>
      scheduledReconnects (failures k s) = scheduledReconnects s
      \<and> reconnectAttempts (failures k s) = reconnectAttempts s
      \<and> fallbackPollingInterval (handleDisconnection s)
      \<and> \<not> isConnected (handleDisconnection s))
   \<and> (reconnectAttempts s = 0 \<longrightarrow>
        scheduledReconnects (failures (maxReconnectAttempts + k) s)
          = scheduledReconnects (failures maxReconnectAttempts s))
   \<and> isConnected (onOpen s now)
   \<and> reconnectAttempts (onOpen s now) = 0
   \<and> \<not> fallbackPollingInterval (onOpen s now)
   \<and> (ws s = Some OPEN \<longrightarrow>
        transmitted (onOpen s now) = transmitted s @ [SUBSCRIBE_PRODUCTS (guildId s)])
   \<and> (ws s \<noteq> Some OPEN \<longrightarrow> transmitted (onOpen s now) = transmitted s)"
proof -
  have ex: "\<not> reconnectAttempts s < maxReconnectAttempts \<longrightarrow>
      scheduledReconnects (failures k s) = scheduledReconnects s
      \<and> reconnectAttempts (failures k s) = reconnectAttempts s
      \<and> fallbackPollingInterval (handleDisconnection s)
      \<and> \<not> isConnected (handleDisconnection s)"
    using failures_exhausted [of s k] by (simp add: handleDisconnection_polling)
  have be: "reconnectAttempts s = 0 \<longrightarrow>
        scheduledReconnects (failures (maxReconnectAttempts + k) s)
          = scheduledReconnects (failures maxReconnectAttempts s)"
    using failures_beyond by blast
  have op: "isConnected (onOpen s now) \<and> reconnectAttempts (onOpen s now) = 0
      \<and> \<not> fallbackPollingInterval (onOpen s now)"
    by simp
  have tr: "(ws s = Some OPEN \<longrightarrow>
        transmitted (onOpen s now) = transmitted s @ [SUBSCRIBE_PRODUCTS (guildId s)])
      \<and> (ws s \<noteq> Some OPEN \<longrightarrow> transmitted (onOpen s now) = transmitted s)"
    by (simp add: onOpen_transmitted)
  from ex be op tr show ?thesis by blast
qed

lemma upt_1_6: "[1..<Suc 5] = [1, 2, 3, 4, 5]"
  by (simp add: upt_rec)

lemma five_failures:
  "scheduledReconnects (failures 5 initial_manager) = [5000, 10000, 15000, 20000, 25000]"
  "reconnectAttempts (failures 5 initial_manager) = 5"
proof -
  have a: "reconnectAttempts initial_manager = 0" by simp
  have m: "5 \<le> maxReconnectAttempts" by (simp add: maxReconnectAttempts_def)
  show "scheduledReconnects (failures 5 initial_manager) = [5000, 10000, 15000, 20000, 25000]"
    unfolding failures_scheduled [OF a m] upt_1_6 by (simp add: reconnectDelay_def)
  show "reconnectAttempts (failures 5 initial_manager) = 5"
    by (rule failures_attempts [OF a m])
qed

lemma beyond_five:
  "scheduledReconnects (failures (5 + k) initial_manager) = [5000, 10000, 15000, 20000, 25000]"
proof -
  have "\<not> reconnectAttempts (failures 5 initial_manager) < maxReconnectAttempts"
    by (simp add: five_failures maxReconnectAttempts_def)
  from failures_exhausted [OF this, of k] show ?thesis
    by (simp add: failures_add five_failures)
qed

text \<open>
  The statement of C6 from the initial state: three disconnections beyond the maximum add
  no reconnect, and an \<^verbatim>\<open>open\<close> on an open socket sends the subscription.
\<close>

theorem C6_after_exhaustion_witness:
  "reconnectAttempts initial_manager = 0
   \<and> scheduledReconnects (failures (maxReconnectAttempts + 3) initial_manager)
       = scheduledReconnects (failures maxReconnectAttempts initial_manager)
   \<and> \<not> reconnectAttempts (failures 5 initial_manager) < maxReconnectAttempts
   \<and> scheduledReconnects (failures 2 (failures 5 initial_manager))
       = scheduledReconnects (failures 5 initial_manager)
   \<and> fallbackPollingInterval (handleDisconnection (failures 5 initial_manager))
   \<and> ws ((failures 6 initial_manager)\<lparr>ws := Some OPEN\<rparr>) = Some OPEN
   \<and> transmitted (onOpen ((failures 6 initial_manager)\<lparr>ws := Some OPEN\<rparr>) 0)
       = transmitted ((failures 6 initial_manager)\<lparr>ws := Some OPEN\<rparr>)
           @ [SUBSCRIBE_PRODUCTS (guildId ((failures 6 initial_manager)\<lparr>ws := Some OPEN\<rparr>))]"
proof -
  have a: "reconnectAttempts initial_manager = 0" by simp
  let ?c = "(failures 6 initial_manager)\<lparr>ws := Some OPEN\<rparr>"
  have w: "ws ?c = Some OPEN" by simp
  have x: "\<not> reconnectAttempts (failures 5 initial_manager) < maxReconnectAttempts"
    by (simp add: five_failures maxReconnectAttempts_def)
  from C6_after_exhaustion [of initial_manager 3 0] a
  have one: "scheduledReconnects (failures (maxReconnectAttempts + 3) initial_manager)
       = scheduledReconnects (failures maxReconnectAttempts initial_manager)"
    by blast
  from C6_after_exhaustion [of "failures 5 initial_manager" 2 0] x
  have two: "scheduledReconnects (failures 2 (failures 5 initial_manager))
       = scheduledReconnects (failures 5 initial_manager)
     \<and> fallbackPollingInterval (handleDisconnection (failures 5 initial_manager))"
    by blast
  from C6_after_exhaustion [of ?c 0 0] w
  have "transmitted (onOpen ?c 0) = transmitted ?c @ [SUBSCRIBE_PRODUCTS (guildId ?c)]"
    by blast
  with a one two x w show ?thesis by blast
qed

text \<open>
  C6 as written fails: the five reconnects are scheduled during the first five
  disconnections, and the sixth to ninth schedule none.
\<close>

theorem C6_counterexample:
  "reconnectAttempts (failures 5 initial_manager) = 5
   \<and> maxReconnectAttempts = 5
   \<and> scheduledReconnects (failures 5 initial_manager) = [5000, 10000, 15000, 20000, 25000]
   \<and> scheduledReconnects (handleDisconnection (failures 5 initial_manager))
       = [5000, 10000, 15000, 20000, 25000]
   \<and> scheduledReconnects (failures (5 + 4) initial_manager)
       = [5000, 10000, 15000, 20000, 25000]"
proof -
  have "handleDisconnection (failures 5 initial_manager) = failures (5 + 1) initial_manager"
    by (simp add: failures_Suc [symmetric])
  then have "scheduledReconnects (handleDisconnection (failures 5 initial_manager))
       = [5000, 10000, 15000, 20000, 25000]"
    by (simp only: beyond_five)
  then show ?thesis
    using five_failures beyond_five [of 4] by (simp add: maxReconnectAttempts_def)
qed

text \<open>
  Counted in calls of \<^verbatim>\<open>handleDisconnection\<close> from a state whose attempt counter is
  zero: \<open>k\<close> consecutive calls, \<open>k\<close> at most the maximum, schedule the delays
  \<open>1 * reconnectDelay, ..., k * reconnectDelay\<close> in this order and leave the counter at
  \<open>k\<close>; the \<^verbatim>\<open>open\<close> handler resets it to zero.
\<close>

lemma handleDisconnection_calls_backoff:
  assumes "reconnectAttempts s = 0" and "k \<le> maxReconnectAttempts"
  shows "scheduledReconnects (failures k s) =
           scheduledReconnects s @ map (\<lambda>i. i * reconnectDelay) [1..<Suc k]
    \<and> reconnectAttempts (failures k s) = k
    \<and> (0 < k \<longrightarrow> last (scheduledReconnects (failures k s)) = k * reconnectDelay)
    \<and> reconnectAttempts (onOpen (failures k s) now) = 0"
proof -
  have sched: "scheduledReconnects (failures k s) =
      scheduledReconnects s @ map (\<lambda>i. i * reconnectDelay) [1..<Suc k]"
    using assms by (rule failures_scheduled)
  have "0 < k \<longrightarrow> last (scheduledReconnects (failures k s)) = k * reconnectDelay"
  proof
    assume "0 < k"
    then have "[1..<Suc k] = [1..<k] @ [k]" by simp
    then show "last (scheduledReconnects (failures k s)) = k * reconnectDelay"
      unfolding sched by simp
  qed
  with sched assms show ?thesis by (simp add: failures_attempts)
qed

text \<open>
  Claim C7 fails on the code. The first connection attempt fails: both handlers run, so
  after this one failed attempt the counter is 2 and two reconnects are scheduled, after
  5000 and after 10000 milliseconds, where the claim has one reconnect after
  \<open>1 * reconnectDelay\<close>; after three failed attempts the counter has reached the
  maximum of 5.
\<close>

theorem C7_failed_attempt_counts_twice:
  "reconnectAttempts (failedAttempt (connect initial_manager)) = 2
   \<and> scheduledReconnects (failedAttempt (connect initial_manager)) = [5000, 10000]
   \<and> reconnectAttempts
        (failedAttempt (failedAttempt (failedAttempt (connect initial_manager)))) = 5
   \<and> maxReconnectAttempts = 5"
  by (simp add: failedAttempt_def run_events_def handleDisconnection_attempts
      handleDisconnection_scheduled maxReconnectAttempts_def reconnectDelay_def)

text \<open>
  Claim C10. \<^verbatim>\<open>send\<close> hands the message to the socket iff the manager is connected
  and the socket is \<^verbatim>\<open>OPEN\<close>; otherwise the state is unchanged, so nothing is kept for
  later and every later run is the run without the call. A subscription or a ping sent
  while not connected is lost.
\<close>

theorem C10_send:
  "(transmitted (send s m) = transmitted s @ [m] \<longleftrightarrow> isConnected s \<and> ws s = Some OPEN)
   \<and> (isConnected s \<and> ws s = Some OPEN \<longrightarrow> send s m = s\<lparr>transmitted := transmitted s @ [m]\<rparr>)
   \<and> (\<not> (isConnected s \<and> ws s = Some OPEN) \<longrightarrow>
        send s m = s \<and> run_events (send s m) es = run_events s es)
   \<and> (\<not> isConnected s \<longrightarrow> send s (SUBSCRIBE_PRODUCTS g) = s \<and> send s PING = s)"
  by (auto simp: send_def split: option.splits)

text \<open>
  The statement of C10 at the initial state (not connected) and at a connected state with
  an open socket.
\<close>

theorem C10_send_witness:
  "\<not> isConnected initial_manager
   \<and> send initial_manager PING = initial_manager
   \<and> send initial_manager (SUBSCRIBE_PRODUCTS None) = initial_manager
   \<and> isConnected (initial_manager\<lparr>ws := Some OPEN, isConnected := True\<rparr>)
   \<and> ws (initial_manager\<lparr>ws := Some OPEN, isConnected := True\<rparr>) = Some OPEN
   \<and> transmitted (send (initial_manager\<lparr>ws := Some OPEN, isConnected := True\<rparr>) PING) = [PING]"
proof -
  have a: "\<not> isConnected initial_manager" by (simp add: initial_manager_def)
  let ?c = "initial_manager\<lparr>ws := Some OPEN, isConnected := True\<rparr>"
  have b: "isConnected ?c \<and> ws ?c = Some OPEN" by simp
  have t: "transmitted ?c = []" by (simp add: initial_manager_def)
  from C10_send [of initial_manager PING "[]" None] a
  have off: "send initial_manager PING = initial_manager
      \<and> send initial_manager (SUBSCRIBE_PRODUCTS None) = initial_manager"
    by blast
  from C10_send [of ?c PING "[]" None] b
  have "send ?c PING = ?c\<lparr>transmitted := transmitted ?c @ [PING]\<rparr>"
    by blast
  then have "transmitted (send ?c PING) = [PING]" using t by simp
  with a b off show ?thesis by blast
qed

section \<open>Properties of the broadcast\<close>

text \<open>
  When every selected connection is \<^verbatim>\<open>OPEN\<close>, as the guards of \<^verbatim>\<open>broadcast\<close> and
  \<^verbatim>\<open>broadcastToType\<close> make sure, the loop visits every connection and throws nothing.
\<close>

lemma forEach_send_guarded:
  assumes "\<forall>c \<in> set cs. selected c \<longrightarrow> readyState c = OPEN"
  shows "forEach_send selected m cs =
     \<lparr>connections = map (accept_message selected m) cs,
      closing = map client_id (filter (\<lambda>c. selected c \<and> sendFails c) cs),
      thrown = False\<rparr>"
  using assms
  by (induction cs) (auto simp: accept_message_def client_send_def Let_def)

lemma broadcast_result:
  "broadcast clients now message =
     \<lparr>connections = map (accept_message (\<lambda>c. readyState c = OPEN) (message, now)) clients,
      closing = map client_id (filter (\<lambda>c. readyState c = OPEN \<and> sendFails c) clients),
      thrown = False\<rparr>"
  unfolding broadcast_def by (rule forEach_send_guarded) simp

lemma handleClose_filter:
  "handleClose cs ids = filter (\<lambda>c. client_id c \<notin> set ids) cs"
  unfolding handleClose_def
proof (induction ids arbitrary: cs)
  case Nil
  show ?case by simp
next
  case (Cons i ids)
  have "filter (\<lambda>c. client_id c \<notin> set ids) (deleteClient cs i)
      = filter (\<lambda>c. client_id c \<notin> set (i # ids)) cs"
    by (auto simp: deleteClient_def intro: filter_cong)
  with Cons show ?case by simp
qed

lemma accept_message_fields [simp]:
  "client_id (accept_message selected m c) = client_id c"
  "readyState (accept_message selected m c) = readyState c"
  "sendFails (accept_message selected m c) = sendFails c"
  by (simp_all add: accept_message_def)

lemma evicted_are_the_failed:
  assumes "distinct (map client_id cs)"
  shows "filter (\<lambda>c. client_id c \<notin> set (map client_id (filter failed cs)))
           (map (accept_message selected m) cs)
         = map (accept_message selected m) (filter (\<lambda>c. \<not> failed c) cs)"
proof -
  have inj: "inj_on client_id (set cs)"
    using assms by (simp add: distinct_map)
  have "client_id c \<notin> set (map client_id (filter failed cs)) \<longleftrightarrow> \<not> failed c"
    if "c \<in> set cs" for c
    using that inj by (auto simp: inj_on_def)
  then have "filter (\<lambda>c. client_id c \<notin> set (map client_id (filter failed cs))) cs
      = filter (\<lambda>c. \<not> failed c) cs"
    by (auto intro: filter_cong)
  moreover have "filter (\<lambda>c. client_id c \<notin> set (map client_id (filter failed cs)))
           (map (accept_message selected m) cs)
      = map (accept_message selected m)
          (filter (\<lambda>c. client_id c \<notin> set (map client_id (filter failed cs))) cs)"
    by (simp add: filter_map comp_def)
  ultimately show ?thesis by simp
qed

text \<open>
  Claim C8. A broadcast raises no exception: the \<^verbatim>\<open>readyState\<close> guard keeps
  \<^verbatim>\<open>send\<close> away from every socket on which it throws. Every open connection whose
  send does not fail receives the event, wherever it stands in the set relative to a
  connection whose send fails: a failed send does not end the loop. The library emits
  \<^verbatim>\<open>close\<close> exactly on the open connections whose send failed, and once the hub has
  handled these events exactly those connections have left the connection set; the
  others are still registered, with the event received by the open ones.
\<close>

theorem C8_broadcast_isolation:
  "\<not> thrown (broadcast clients now message)
   \<and> connections (broadcast clients now message) =
       map (accept_message (\<lambda>c. readyState c = OPEN) (message, now)) clients
   \<and> closing (broadcast clients now message) =
       map client_id (filter (\<lambda>c. readyState c = OPEN \<and> sendFails c) clients)
   \<and> (distinct (map client_id clients) \<longrightarrow>
        handleClose (connections (broadcast clients now message))
          (closing (broadcast clients now message)) =
          map (accept_message (\<lambda>c. readyState c = OPEN) (message, now))
            (filter (\<lambda>c. \<not> (readyState c = OPEN \<and> sendFails c)) clients))"
proof -
  let ?open = "\<lambda>c. readyState c = OPEN"
  note result = broadcast_result [of clients now message]
  have quiet: "\<not> thrown (broadcast clients now message)"
    by (simp add: result)
  have served: "connections (broadcast clients now message) =
      map (accept_message ?open (message, now)) clients"
    by (simp add: result)
  have emitted: "closing (broadcast clients now message) =
      map client_id (filter (\<lambda>c. readyState c = OPEN \<and> sendFails c) clients)"
    by (simp add: result)
  have evicted: "distinct (map client_id clients) \<longrightarrow>
        handleClose (connections (broadcast clients now message))
          (closing (broadcast clients now message)) =
          map (accept_message ?open (message, now))
            (filter (\<lambda>c. \<not> (readyState c = OPEN \<and> sendFails c)) clients)"
  proof
    assume "distinct (map client_id clients)"
    from evicted_are_the_failed [OF this, of "\<lambda>c. readyState c = OPEN \<and> sendFails c" ?open "(message, now)"]
    show "handleClose (connections (broadcast clients now message))
          (closing (broadcast clients now message)) =
          map (accept_message ?open (message, now))
            (filter (\<lambda>c. \<not> (readyState c = OPEN \<and> sendFails c)) clients)"
      unfolding served emitted handleClose_filter by simp
  qed
  show ?thesis
    apply (intro conjI)
       apply (rule quiet)
      apply (rule served)
     apply (rule emitted)
    apply (rule evicted)
    done
qed

text \<open>
  The statement of C8 on three open connections of which the first is broken: no
  exception, the other two receive the message and the first is evicted.
\<close>

theorem C8_broadcast_isolation_witness:
  "distinct (map client_id [conn 1 OPEN True, conn 2 OPEN False, conn 3 OPEN False])
   \<and> \<not> thrown (broadcast [conn 1 OPEN True, conn 2 OPEN False, conn 3 OPEN False] 7 PONG)
   \<and> connections (broadcast [conn 1 OPEN True, conn 2 OPEN False, conn 3 OPEN False] 7 PONG) =
       [conn 1 OPEN True,
        (conn 2 OPEN False)\<lparr>received := [(PONG, 7)]\<rparr>,
        (conn 3 OPEN False)\<lparr>received := [(PONG, 7)]\<rparr>]
   \<and> closing (broadcast [conn 1 OPEN True, conn 2 OPEN False, conn 3 OPEN False] 7 PONG) = [1]
   \<and> handleClose
        (connections (broadcast [conn 1 OPEN True, conn 2 OPEN False, conn 3 OPEN False] 7 PONG))
        (closing (broadcast [conn 1 OPEN True, conn 2 OPEN False, conn 3 OPEN False] 7 PONG)) =
       [(conn 2 OPEN False)\<lparr>received := [(PONG, 7)]\<rparr>,
        (conn 3 OPEN False)\<lparr>received := [(PONG, 7)]\<rparr>]"
proof -
  let ?cs = "[conn 1 OPEN True, conn 2 OPEN False, conn 3 OPEN False]"
  have d: "distinct (map client_id ?cs)"
    by (simp add: conn_def)
  note inst = C8_broadcast_isolation [of ?cs 7 PONG]
  from inst have q: "\<not> thrown (broadcast ?cs 7 PONG)"
    by blast
  from inst have f: "connections (broadcast ?cs 7 PONG) =
      [conn 1 OPEN True, (conn 2 OPEN False)\<lparr>received := [(PONG, 7)]\<rparr>,
       (conn 3 OPEN False)\<lparr>received := [(PONG, 7)]\<rparr>]"
    by (simp add: accept_message_def conn_def)
  from inst have s: "closing (broadcast ?cs 7 PONG) = [1]"
    by (simp add: conn_def)
  from inst d have "handleClose (connections (broadcast ?cs 7 PONG))
        (closing (broadcast ?cs 7 PONG)) =
      map (accept_message (\<lambda>c. readyState c = OPEN) (PONG, 7))
        (filter (\<lambda>c. \<not> (readyState c = OPEN \<and> sendFails c)) ?cs)"
    by blast
  then have h: "handleClose (connections (broadcast ?cs 7 PONG))
        (closing (broadcast ?cs 7 PONG)) =
      [(conn 2 OPEN False)\<lparr>received := [(PONG, 7)]\<rparr>,
       (conn 3 OPEN False)\<lparr>received := [(PONG, 7)]\<rparr>]"
    by (simp add: accept_message_def conn_def)
  from d q f s h show ?thesis by blast
qed

section \<open>Properties of the change stream\<close>

lemma match_in_document: "\<not> match_in (BDoc doc) presentationFields"
  by (simp add: match_in_def presentationFields_def)

lemma productChangeStream_nonempty: "productChangeStream ch \<noteq> [] \<longleftrightarrow> productMatch ch"
  by (simp add: productChangeStream_def onProductChange_def)

text \<open>
  What the \<^verbatim>\<open>$match\<close> stage passes: a notification reaches the handler iff its
  operation is \<^verbatim>\<open>insert\<close>, \<^verbatim>\<open>update\<close> or \<^verbatim>\<open>delete\<close>, or the value at
  \<^verbatim>\<open>updateDescription.updatedFields\<close> matches the \<^verbatim>\<open>$in\<close> list, which a
  document of updated fields never does.
\<close>

lemma productChangeStream_passes:
  "(productChangeStream ch \<noteq> [] \<longleftrightarrow>
      operationType ch = ''insert'' \<or> operationType ch = ''update''
      \<or> operationType ch = ''delete''
      \<or> (\<exists>v. updatedFields ch = Some v \<and> match_in v presentationFields))
   \<and> (operationType ch = ''insert'' \<or> operationType ch = ''update''
        \<or> operationType ch = ''delete'' \<longrightarrow>
        productChangeStream ch = onProductChange ch)
   \<and> (updatedFields ch = None \<or> (\<exists>doc. updatedFields ch = Some (BDoc doc)) \<longrightarrow>
        (productChangeStream ch \<noteq> [] \<longleftrightarrow>
           operationType ch = ''insert'' \<or> operationType ch = ''update''
           \<or> operationType ch = ''delete''))"
proof -
  have m: "productMatch ch \<longleftrightarrow>
      operationType ch = ''insert'' \<or> operationType ch = ''update''
      \<or> operationType ch = ''delete''
      \<or> (\<exists>v. updatedFields ch = Some v \<and> match_in v presentationFields)"
    by (cases "updatedFields ch") (simp_all add: productMatch_def)
  have a: "operationType ch = ''insert'' \<or> operationType ch = ''update''
        \<or> operationType ch = ''delete'' \<longrightarrow> productChangeStream ch = onProductChange ch"
    using m by (auto simp: productChangeStream_def)
  have d: "updatedFields ch = None \<or> (\<exists>doc. updatedFields ch = Some (BDoc doc)) \<longrightarrow>
        (productMatch ch \<longleftrightarrow>
           operationType ch = ''insert'' \<or> operationType ch = ''update''
           \<or> operationType ch = ''delete'')"
    using m match_in_document by auto
  from m a d show ?thesis unfolding productChangeStream_nonempty by blast
qed

text \<open>
  Claim C9 fails on the code: an update that touches only the audit field
  \<^verbatim>\<open>createdBy\<close>, none of \<^verbatim>\<open>stock\<close>, \<^verbatim>\<open>price\<close>, \<^verbatim>\<open>isActive\<close> and
  \<^verbatim>\<open>lastUpdated\<close>, is not suppressed: it passes the \<^verbatim>\<open>$match\<close> stage and both
  hub calls are made.
\<close>

theorem C9_bookkeeping_update_is_broadcast:
  "updatedFields bookkeeping_update = Some (BDoc [(''createdBy'', BString ''admin'')])
   \<and> operationType bookkeeping_update = ''update''
   \<and> productChangeStream bookkeeping_update
     = [Broadcast (PRODUCT_UPDATE ''update'' (FullDocument (P1_at 1000 5))),
        BroadcastToType Bot (PRODUCT_UPDATE_REQUIRED ''P1'' ''update'')]"
  by (simp add: bookkeeping_update_def productChangeStream_def productMatch_def
      onProductChange_def P1_at_def)

end
